theory Spec2Isabelle
  imports Main "HOL-Library.Word"
begin

unbundle bit_operations_syntax

section \<open>The position word of \<open>til::spsc\<close>\<close>

text \<open>
  \<open>using size_type = uint32_t\<close>. The batch operations take a \<open>size_t\<close> count,
  which is 64 bits wide on the x64 targets of the header.
\<close>

type_synonym size_type = "32 word"
type_synonym size_t = "64 word"

text \<open>
  \<open>position_mask = max >> 2\<close>, \<open>revolution_flag = 1 << (digits - 2)\<close>,
  \<open>drop_flag = 1 << (digits - 1)\<close> with \<open>digits = 32\<close>.
\<close>

definition position_mask :: size_type where
  "position_mask = drop_bit 2 (- 1)"

definition revolution_flag :: size_type where
  "revolution_flag = push_bit (32 - 2) 1"

definition drop_flag :: size_type where
  "drop_flag = push_bit (32 - 1) 1"

datatype error = overflow_error | invalid_argument

text \<open>\<open>validate_size\<close>: throws \<open>std::overflow_error\<close> when \<open>v > position_mask\<close>.\<close>

definition validate_size :: "size_t \<Rightarrow> error + unit" where
  "validate_size v = (if v > ucast position_mask then Inl overflow_error else Inr ())"

section \<open>Acquisitions\<close>

text \<open>
  \<open>struct acquisition { begin = 0; end = 0; next = 0; }\<close>; its conversion to
  \<open>bool\<close> is \<open>end != 0\<close>. The value \<open>{}\<close> is what \<open>acquire\<close> returns when the
  other side has been dropped.
\<close>

record acquisition =
  acq_begin :: size_type
  acq_end :: size_type
  acq_next :: size_type

definition empty_acquisition :: acquisition where
  "empty_acquisition = \<lparr>acq_begin = 0, acq_end = 0, acq_next = 0\<rparr>"

definition acquisition_bool :: "acquisition \<Rightarrow> bool" where
  "acquisition_bool a = (acq_end a \<noteq> 0)"

text \<open>
  The three fields packed into a position word, as \<open>acquire\<close> and \<open>~arc\<close> read
  them: \<open>pos & position_mask\<close>, \<open>pos & revolution_flag\<close>, \<open>pos & drop_flag\<close>.
\<close>

definition pos_value :: "size_type \<Rightarrow> nat" where
  "pos_value p = unat (p AND position_mask)"

definition pos_rev :: "size_type \<Rightarrow> bool" where
  "pos_rev p = (p AND revolution_flag \<noteq> 0)"

definition pos_dropped :: "size_type \<Rightarrow> bool" where
  "pos_dropped p = (p AND drop_flag \<noteq> 0)"

section \<open>The shared state \<open>arc\<close>\<close>

text \<open>
  \<open>struct arc\<close>: \<open>_data\<close>, \<open>_capacity\<close>, \<open>_eitherSideDropped\<close>, \<open>_producer\<close>,
  \<open>_consumer\<close>. The raw storage behind \<open>_data\<close> is a map from the slot offset to the
  element constructed there; \<open>None\<close> is a slot that holds no constructed element.
\<close>

record 'a arc =
  data :: "nat \<Rightarrow> 'a option"
  capacity :: size_type
  eitherSideDropped :: bool
  producer :: size_type
  consumer :: size_type

text \<open>The constructor \<open>arc(capacity)\<close>: raw memory, both positions zero.\<close>

definition arc_new :: "size_type \<Rightarrow> 'a arc" where
  "arc_new c = \<lparr>data = (\<lambda>i. None), capacity = c, eitherSideDropped = False,
     producer = 0, consumer = 0\<rparr>"

text \<open>
  \<open>arc::acquire(mine, theirs, waitMask, slots)\<close>. \<open>myPos\<close> is the relaxed load of
  \<open>mine\<close>. The list \<open>theirs\<close> holds the values that the successive acquire loads of
  the other side's position return, one per iteration of the \<open>while (true)\<close> loop: an
  iteration that finds \<open>(myPos ^ theirPos) == waitMask\<close> waits and loads again. The
  result is \<open>None\<close> when every load of the list sent the caller back into
  \<open>wait\<close> (the call has not returned yet); otherwise it is the acquisition together
  with the loads that were not consumed.
\<close>

fun acquire ::
  "'a arc \<Rightarrow> size_type \<Rightarrow> size_type list \<Rightarrow> size_type \<Rightarrow> size_type
     \<Rightarrow> (acquisition \<times> size_type list) option" where
  "acquire arc myPos [] waitMask slots = None"
| "acquire arc myPos (theirPos # later) waitMask slots =
    (if (myPos XOR theirPos) = waitMask
     then acquire arc myPos later waitMask slots
     else if (theirPos AND drop_flag) \<noteq> 0 \<and> (waitMask \<noteq> 0 \<or> (myPos XOR theirPos) = drop_flag)
     then Some (empty_acquisition, later)
     else
       let begin = myPos AND position_mask;
           end = theirPos AND position_mask;
           end = (if end > begin then end else capacity arc);
           end = min end (begin + slots);
           revolution = myPos AND revolution_flag;
           next = (if end \<noteq> capacity arc then end OR revolution else revolution XOR revolution_flag)
       in Some (\<lparr>acq_begin = begin, acq_end = end, acq_next = next\<rparr>, later))"

text \<open>\<open>arc::release(mine, acquisition)\<close> stores \<open>acquisition.next\<close> into \<open>mine\<close>.\<close>

definition producer_acquire ::
  "'a arc \<Rightarrow> size_type list \<Rightarrow> size_type \<Rightarrow> (acquisition \<times> size_type list) option" where
  "producer_acquire arc theirs slots = acquire arc (producer arc) theirs revolution_flag slots"

definition producer_release :: "'a arc \<Rightarrow> acquisition \<Rightarrow> 'a arc" where
  "producer_release arc a = arc\<lparr>producer := acq_next a\<rparr>"

definition consumer_acquire ::
  "'a arc \<Rightarrow> size_type list \<Rightarrow> size_type \<Rightarrow> (acquisition \<times> size_type list) option" where
  "consumer_acquire arc theirs slots = acquire arc (consumer arc) theirs 0 slots"

definition consumer_release :: "'a arc \<Rightarrow> acquisition \<Rightarrow> 'a arc" where
  "consumer_release arc a = arc\<lparr>consumer := acq_next a\<rparr>"

text \<open>
  Element transfer on the raw storage: \<open>std::uninitialized_move_n\<close> and placement
  \<open>new\<close> construct elements from \<open>begin\<close> on, \<open>std::destroy(beg, end)\<close> ends the
  lifetime of the elements of a range, and reading the range yields what the slots hold.
\<close>

definition uninitialized_move_n :: "'a list \<Rightarrow> nat \<Rightarrow> (nat \<Rightarrow> 'a option) \<Rightarrow> (nat \<Rightarrow> 'a option)" where
  "uninitialized_move_n vs begin d =
     (\<lambda>i. if begin \<le> i \<and> i < begin + length vs then Some (vs ! (i - begin)) else d i)"

definition destroy :: "nat \<Rightarrow> nat \<Rightarrow> (nat \<Rightarrow> 'a option) \<Rightarrow> (nat \<Rightarrow> 'a option)" where
  "destroy beg end d = (\<lambda>i. if beg \<le> i \<and> i < end then None else d i)"

definition read_range :: "nat \<Rightarrow> nat \<Rightarrow> (nat \<Rightarrow> 'a option) \<Rightarrow> 'a option list" where
  "read_range beg end d = map d [beg..<end]"

section \<open>Dropping a side and tearing the channel down\<close>

datatype side = Producer | Consumer

text \<open>\<open>drop(mine)\<close> is called with \<open>_producer\<close> or \<open>_consumer\<close> as \<open>mine\<close>.\<close>

fun mine :: "side \<Rightarrow> 'a arc \<Rightarrow> size_type" where
  "mine Producer arc = producer arc"
| "mine Consumer arc = consumer arc"

fun store_mine :: "side \<Rightarrow> size_type \<Rightarrow> 'a arc \<Rightarrow> 'a arc" where
  "store_mine Producer v arc = arc\<lparr>producer := v\<rparr>"
| "store_mine Consumer v arc = arc\<lparr>consumer := v\<rparr>"

text \<open>
  \<open>~arc\<close>: the ranges handed to \<open>std::destroy\<close>, in the order of the calls;
  \<open>free_raw_memory(_data)\<close> follows in every case.
\<close>

definition arc_destructor :: "'a arc \<Rightarrow> (nat \<times> nat) list" where
  "arc_destructor arc =
    (let beg = consumer arc;
         end = producer arc;
         differentRevolution = (((beg XOR end) AND revolution_flag) \<noteq> 0);
         beg = beg AND position_mask;
         end = end AND position_mask
     in if end > beg then [(unat beg, unat end)]
        else if differentRevolution then [(0, unat end), (unat beg, unat (capacity arc))]
        else [])"

text \<open>
  \<open>arc::drop(mine)\<close> run without interruption: store the drop flag, exchange
  \<open>_eitherSideDropped\<close>, and \<open>delete this\<close> when the flag was already set. \<open>None\<close>
  is the deleted \<open>arc\<close>.
\<close>

definition arc_drop :: "side \<Rightarrow> 'a arc \<Rightarrow> 'a arc option" where
  "arc_drop t arc =
    (let myPos = mine t arc;
         arc = store_mine t (myPos OR drop_flag) arc
     in if eitherSideDropped arc then None else Some (arc\<lparr>eitherSideDropped := True\<rparr>))"

text \<open>
  Two threads inside \<open>arc::drop\<close>, one per side, each at its own program point:
  0 before the relaxed load of \<open>mine\<close>, 1 before the store of \<open>myPos | drop_flag\<close>,
  2 before \<open>_eitherSideDropped.exchange(true)\<close>, 3 before the \<open>if\<close> on the exchanged
  value (\<open>delete this\<close> runs \<open>~arc\<close> and frees the storage), 4 after the call. The
  calls of \<open>std::destroy\<close> and of \<open>free_raw_memory\<close> are logged with the side that made
  them.
\<close>

record 'a dropping =
  the_arc :: "'a arc"
  pc :: "side \<Rightarrow> nat"
  myPos_of :: "side \<Rightarrow> size_type"
  exchanged :: "side \<Rightarrow> bool"
  destroyed :: "(side \<times> nat \<times> nat) list"
  freed :: "side list"

definition drop_step :: "side \<Rightarrow> 'a dropping \<Rightarrow> 'a dropping" where
  "drop_step t s =
    (if pc s t = 0 then
       s\<lparr>myPos_of := (myPos_of s)(t := mine t (the_arc s)), pc := (pc s)(t := 1)\<rparr>
     else if pc s t = 1 then
       s\<lparr>the_arc := store_mine t (myPos_of s t OR drop_flag) (the_arc s), pc := (pc s)(t := 2)\<rparr>
     else if pc s t = 2 then
       s\<lparr>exchanged := (exchanged s)(t := eitherSideDropped (the_arc s)),
         the_arc := (the_arc s)\<lparr>eitherSideDropped := True\<rparr>, pc := (pc s)(t := 3)\<rparr>
     else if pc s t = 3 then
       (if exchanged s t then
          s\<lparr>destroyed := destroyed s @ map (Pair t) (arc_destructor (the_arc s)),
            the_arc := (the_arc s)\<lparr>data :=
              fold (\<lambda>(b, e). destroy b e) (arc_destructor (the_arc s)) (data (the_arc s))\<rparr>,
            freed := freed s @ [t], pc := (pc s)(t := 4)\<rparr>
        else s\<lparr>pc := (pc s)(t := 4)\<rparr>)
     else s)"

definition dropping_start :: "'a arc \<Rightarrow> 'a dropping" where
  "dropping_start arc = \<lparr>the_arc = arc, pc = (\<lambda>t. 0), myPos_of = (\<lambda>t. 0),
     exchanged = (\<lambda>t. False), destroyed = [], freed = []\<rparr>"

text \<open>An interleaving is the list of the sides in the order in which they take a step.\<close>

definition run_drops :: "side list \<Rightarrow> 'a dropping \<Rightarrow> 'a dropping" where
  "run_drops schedule s = fold drop_step schedule s"

section \<open>Sender, receiver and the channel factory\<close>

text \<open>
  The heap of \<open>arc\<close> objects: \<open>new\<close> appends a cell and returns its index, \<open>delete\<close>
  leaves \<open>None\<close>. A handle holds \<open>_arc\<close>, a pointer or \<open>nullptr\<close>.
\<close>

type_synonym 'a heap = "'a arc option list"

record sender =
  sender_arc :: "nat option"

record receiver =
  receiver_arc :: "nat option"

text \<open>\<open>channel(capacity)\<close>: the only check is \<open>capacity == 0\<close>.\<close>

definition channel :: "'a heap \<Rightarrow> size_type \<Rightarrow> error + (sender \<times> receiver \<times> 'a heap)" where
  "channel h c =
    (if c = 0 then Inl invalid_argument
     else let arc = length h
          in Inr (\<lparr>sender_arc = Some arc\<rparr>, \<lparr>receiver_arc = Some arc\<rparr>, h @ [Some (arc_new c)]))"

text \<open>\<open>sender::drop\<close> and \<open>receiver::drop\<close>: \<open>if (_arc) _arc->drop_...()\<close>.\<close>

definition handle_drop :: "side \<Rightarrow> 'a heap \<Rightarrow> nat option \<Rightarrow> 'a heap" where
  "handle_drop t h p =
    (case p of
       None \<Rightarrow> h
     | Some q \<Rightarrow> (if q < length h then
                    (case h ! q of None \<Rightarrow> h | Some arc \<Rightarrow> h[q := arc_drop t arc])
                  else h))"

text \<open>
  The move assignments: \<open>drop(); _arc = std::exchange(other._arc, nullptr);\<close> and the
  end of the body. The last component is the reference the operator returns: no
  \<open>return\<close> statement is executed, so there is none.
\<close>

definition sender_move_assign ::
  "'a heap \<Rightarrow> sender \<Rightarrow> sender \<Rightarrow> 'a heap \<times> sender \<times> sender \<times> sender option" where
  "sender_move_assign h this other =
    (let h = handle_drop Producer h (sender_arc this);
         this = this\<lparr>sender_arc := sender_arc other\<rparr>;
         other = other\<lparr>sender_arc := None\<rparr>
     in (h, this, other, None))"

definition receiver_move_assign ::
  "'a heap \<Rightarrow> receiver \<Rightarrow> receiver \<Rightarrow> 'a heap \<times> receiver \<times> receiver \<times> receiver option" where
  "receiver_move_assign h this other =
    (let h = handle_drop Consumer h (receiver_arc this);
         this = this\<lparr>receiver_arc := receiver_arc other\<rparr>;
         other = other\<lparr>receiver_arc := None\<rparr>
     in (h, this, other, None))"

section \<open>Position words, bit by bit\<close>

lemma position_mask_eq: "position_mask = mask 30"
  by (simp add: position_mask_def mask_eq_exp_minus_1)

lemma revolution_flag_eq: "revolution_flag = push_bit 30 1"
  by (simp add: revolution_flag_def)

lemma drop_flag_eq: "drop_flag = push_bit 31 1"
  by (simp add: drop_flag_def)

lemma bit_position_mask: "bit position_mask n \<longleftrightarrow> n < 30"
  unfolding position_mask_eq by (auto simp only: bit_mask_iff possible_bit_word) simp_all

lemma bit_revolution_flag: "bit revolution_flag n \<longleftrightarrow> n = 30"
  unfolding revolution_flag_eq by (auto simp only: bit_push_bit_iff bit_1_iff possible_bit_word) simp_all

lemma bit_drop_flag: "bit drop_flag n \<longleftrightarrow> n = 31"
  unfolding drop_flag_eq by (auto simp only: bit_push_bit_iff bit_1_iff possible_bit_word) simp_all

lemmas flag_bits = bit_position_mask bit_revolution_flag bit_drop_flag

lemma w32_bit_eq: "((a::size_type) = b) = (\<forall>n. bit a n = bit b n)"
  by (auto intro: bit_word_eqI)


lemma pos_rev_bit: "pos_rev p = bit p 30"
  unfolding pos_rev_def by (auto simp add: w32_bit_eq bit_and_iff flag_bits)

lemma pos_dropped_bit: "pos_dropped p = bit p 31"
  unfolding pos_dropped_def by (auto simp add: w32_bit_eq bit_and_iff flag_bits)

lemma pos_value_eq_iff: "(pos_value p = pos_value q) = (\<forall>n<30. bit p n = bit q n)"
  unfolding pos_value_def 
  by (auto simp add: word_unat_eq_iff[symmetric] w32_bit_eq bit_and_iff flag_bits)

lemma word32_eq_iff: "((p::size_type) = q) = ((\<forall>n<30. bit p n = bit q n) \<and> bit p 30 = bit q 30 \<and> bit p 31 = bit q 31)"
proof
  assume r: "(\<forall>n<30. bit p n = bit q n) \<and> bit p 30 = bit q 30 \<and> bit p 31 = bit q 31"
  show "p = q"
  proof (rule bit_word_eqI)
    fix n assume "n < LENGTH(32)"
    then have "n < 30 \<or> n = 30 \<or> n = 31" by simp arith
    with r show "bit p n = bit q n" by auto
  qed
qed simp


lemma xor_eq_rev_iff: "(p XOR q = revolution_flag) = (pos_value p = pos_value q \<and> pos_rev p \<noteq> pos_rev q \<and> pos_dropped p = pos_dropped q)"
  unfolding word32_eq_iff[of "p XOR q"] pos_value_eq_iff pos_rev_bit pos_dropped_bit
  by (auto simp add: bit_xor_iff flag_bits)



lemma pos_value_less: "pos_value p < 2 ^ 30"
  unfolding pos_value_def position_mask_eq
  by (simp only: take_bit_eq_mask[symmetric] unsigned_take_bit_eq take_bit_nat_less_exp)

lemma small_bits: 
  assumes "unat (e::size_type) < 2 ^ 30" "n \<ge> 30" shows "\<not> bit e n"
proof -
  have "take_bit 30 (unat e) = unat e" using assms(1) by (rule take_bit_nat_eq_self)
  then have "bit (unat e) n = bit (take_bit 30 (unat e)) n" by simp
  then have "\<not> bit (unat e) n" using assms(2) by (simp add: bit_take_bit_iff)
  then show ?thesis by (simp add: bit_unsigned_iff)
qed

lemma small_bits': "unat (e::size_type) < 2 ^ 30 \<Longrightarrow> bit e n \<Longrightarrow> n < 30"
  by (meson small_bits not_le)

lemma pos_value_small: 
  assumes "unat e < 2 ^ 30" shows "pos_value e = unat e"
proof -
  have "e AND position_mask = e"
    using small_bits'[OF assms] by (auto simp add: w32_bit_eq bit_and_iff flag_bits)
  then show ?thesis by (simp add: pos_value_def)
qed



lemma drop_store:
  shows "pos_value (p OR drop_flag) = pos_value p"
    and "pos_rev (p OR drop_flag) = pos_rev p"
    and "pos_dropped (p OR drop_flag) = True"
  by (auto simp add: pos_value_eq_iff pos_rev_bit pos_dropped_bit bit_or_iff flag_bits)

lemma position_mask_num: "position_mask = 1073741823"
  by (simp add: position_mask_eq mask_eq_exp_minus_1)

lemma revolution_flag_num: "revolution_flag = 1073741824"
  by (simp add: revolution_flag_def)

lemma drop_flag_num: "drop_flag = 2147483648"
  by (simp add: drop_flag_def)

lemmas flag_nums = position_mask_num revolution_flag_num drop_flag_num

lemma unat_position_mask: "unat position_mask = 2 ^ 30 - 1"
  by (simp add: position_mask_eq mask_eq_exp_minus_1)

lemma le_position_mask: "e \<le> position_mask \<Longrightarrow> unat e < 2 ^ 30"
  by (simp add: word_le_nat_alt unat_position_mask)

section \<open>The wait loop and the range computation of \<open>acquire\<close>\<close>

lemma acquire_Some:
  assumes "acquire arc myPos theirs waitMask slots = Some (a, later)"
  shows "\<exists>waited theirPos. theirs = waited @ theirPos # later
           \<and> (\<forall>t\<in>set waited. myPos XOR t = waitMask)
           \<and> acquire arc myPos [theirPos] waitMask slots = Some (a, [])"
  using assms
proof (induction theirs)
  case Nil
  then show ?case by simp
next
  case (Cons t ts)
  show ?case
  proof (cases "myPos XOR t = waitMask")
    case True
    with Cons.prems have "acquire arc myPos ts waitMask slots = Some (a, later)" by simp
    from Cons.IH[OF this] obtain waited theirPos where
      w: "ts = waited @ theirPos # later" "\<forall>t\<in>set waited. myPos XOR t = waitMask"
         "acquire arc myPos [theirPos] waitMask slots = Some (a, [])" by blast
    from w True have "t # ts = (t # waited) @ theirPos # later \<and> (\<forall>x\<in>set (t # waited). myPos XOR x = waitMask)"
      by simp
    with w(3) show ?thesis by blast
  next
    case False
    with Cons.prems have "later = ts" and "acquire arc myPos [t] waitMask slots = Some (a, [])"
      by (auto simp add: Let_def split: if_splits)
    then have "t # ts = [] @ t # later \<and> (\<forall>x\<in>set []. myPos XOR x = waitMask)" by simp
    with \<open>acquire arc myPos [t] waitMask slots = Some (a, [])\<close> show ?thesis by blast
  qed
qed

lemma acquire_waits:
  "\<forall>t\<in>set waited. myPos XOR t = waitMask \<Longrightarrow>
   acquire arc myPos (waited @ rest) waitMask slots = acquire arc myPos rest waitMask slots"
  by (induction waited) simp_all

lemma acquire_later_shorter:
  "acquire arc myPos theirs waitMask slots = Some (a, later) \<Longrightarrow> length later < length theirs"
  by (induction theirs) (auto simp add: Let_def split: if_splits)


lemma acquire_closed:
  assumes "acquire arc myPos [theirPos] waitMask slots = Some (a, later)"
    and "pos_dropped theirPos \<and> (waitMask \<noteq> 0 \<or> myPos XOR theirPos = drop_flag)"
  shows "a = empty_acquisition"
  using assms by (auto simp add: pos_dropped_def Let_def split: if_splits)

lemma acquire_open:
  assumes "acquire arc myPos [theirPos] waitMask slots = Some (a, later)"
    and "\<not> (pos_dropped theirPos \<and> (waitMask \<noteq> 0 \<or> myPos XOR theirPos = drop_flag))"
  shows "acq_begin a = myPos AND position_mask"
    and "acq_end a = min (if theirPos AND position_mask \<le> myPos AND position_mask then capacity arc
                          else theirPos AND position_mask) ((myPos AND position_mask) + slots)"
    and "acq_next a = (if acq_end a \<noteq> capacity arc then acq_end a OR (myPos AND revolution_flag)
                       else (myPos AND revolution_flag) XOR revolution_flag)"
  using assms by (auto simp add: pos_dropped_def Let_def not_less split: if_splits)

lemma pos_value_word: "unat (p AND position_mask) = pos_value p"
  by (simp add: pos_value_def)



lemma producer_blocked_iff:
  "\<not> pos_dropped myPos \<Longrightarrow>
   (myPos XOR theirPos = revolution_flag) =
   (pos_value myPos = pos_value theirPos \<and> pos_rev myPos \<noteq> pos_rev theirPos \<and> \<not> pos_dropped theirPos)"
  by (auto simp add: xor_eq_rev_iff)







section \<open>The batch and single-item operations\<close>

lemma producer_acquire_later_shorter:
  "producer_acquire arc theirs slots = Some (a, later) \<Longrightarrow> length later < length theirs"
  unfolding producer_acquire_def by (rule acquire_later_shorter)

lemma consumer_acquire_later_shorter:
  "consumer_acquire arc theirs slots = Some (a, later) \<Longrightarrow> length later < length theirs"
  unfolding consumer_acquire_def by (rule acquire_later_shorter)

text \<open>
  \<open>sender::move_n(in, count)\<close>: \<open>src\<close> is what the input iterator still has to
  deliver, \<open>theirs\<close> the successive loads of \<open>_consumer\<close>. \<open>size_type(count)\<close>
  truncates to 32 bits, \<open>count -= got\<close> extends \<open>got\<close> to \<open>size_t\<close>. The result is
  \<open>None\<close> while an acquire is still waiting; otherwise it carries the \<open>arc\<close>, the
  loads not consumed, the advanced iterator and \<open>ok\<close>.
\<close>

function move_n_loop ::
  "'a arc \<Rightarrow> size_type list \<Rightarrow> 'a list \<Rightarrow> size_t \<Rightarrow> ('a arc \<times> size_type list \<times> 'a list \<times> bool) option" where
  "move_n_loop arc theirs src count =
    (if count = 0 then Some (arc, theirs, src, True)
     else
       (case producer_acquire arc theirs (ucast count) of
          None \<Rightarrow> None
        | Some (a, later) \<Rightarrow>
            if \<not> acquisition_bool a then Some (arc, later, src, False)
            else
              let begin = unat (acq_begin a);
                  got = acq_end a - acq_begin a;
                  arc = arc\<lparr>data := uninitialized_move_n (take (unat got) src) begin (data arc)\<rparr>;
                  src = drop (unat got) src;
                  count = count - ucast got
              in move_n_loop (producer_release arc a) later src count))"
  by pat_completeness auto
termination
  by (relation "measure (\<lambda>(arc, theirs, src, count). length theirs)")
    (auto dest: producer_acquire_later_shorter)

definition move_n ::
  "'a arc \<Rightarrow> size_type list \<Rightarrow> 'a list \<Rightarrow> size_t
     \<Rightarrow> ('a arc \<times> size_type list \<times> (error + 'a list \<times> bool)) option" where
  "move_n arc theirs src count =
    (case validate_size count of
       Inl e \<Rightarrow> Some (arc, theirs, Inl e)
     | Inr u \<Rightarrow> map_option (\<lambda>(arc, later, src, ok). (arc, later, Inr (src, ok)))
                 (move_n_loop arc theirs src count))"

text \<open>
  \<open>receiver::pop_n(out, count)\<close>: \<open>out\<close> is what has been written through the output
  iterator, \<open>theirs\<close> the successive loads of \<open>_producer\<close>. What is read from a slot
  is the slot's content, \<open>None\<close> for raw storage.
\<close>

function pop_n_loop ::
  "'a arc \<Rightarrow> size_type list \<Rightarrow> 'a option list \<Rightarrow> size_t
     \<Rightarrow> ('a arc \<times> size_type list \<times> 'a option list \<times> bool) option" where
  "pop_n_loop arc theirs out count =
    (if count = 0 then Some (arc, theirs, out, True)
     else
       (case consumer_acquire arc theirs (ucast count) of
          None \<Rightarrow> None
        | Some (a, later) \<Rightarrow>
            if \<not> acquisition_bool a then Some (arc, later, out, False)
            else
              let beg = unat (acq_begin a);
                  end = unat (acq_end a);
                  got = acq_end a - acq_begin a;
                  out = out @ read_range beg end (data arc);
                  arc = arc\<lparr>data := destroy beg end (data arc)\<rparr>;
                  count = count - ucast got
              in pop_n_loop (consumer_release arc a) later out count))"
  by pat_completeness auto
termination
  by (relation "measure (\<lambda>(arc, theirs, out, count). length theirs)")
    (auto dest: consumer_acquire_later_shorter)

definition pop_n ::
  "'a arc \<Rightarrow> size_type list \<Rightarrow> 'a option list \<Rightarrow> size_t
     \<Rightarrow> ('a arc \<times> size_type list \<times> (error + 'a option list \<times> bool)) option" where
  "pop_n arc theirs out count =
    (case validate_size count of
       Inl e \<Rightarrow> Some (arc, theirs, Inl e)
     | Inr u \<Rightarrow> map_option (\<lambda>(arc, later, out, ok). (arc, later, Inr (out, ok)))
                 (pop_n_loop arc theirs out count))"

text \<open>\<open>sender::emplace\<close> and \<open>receiver::pop\<close>: one round for one slot.\<close>

definition emplace :: "'a arc \<Rightarrow> size_type list \<Rightarrow> 'a \<Rightarrow> ('a arc \<times> size_type list \<times> bool) option" where
  "emplace arc theirs v =
    (case producer_acquire arc theirs 1 of
       None \<Rightarrow> None
     | Some (a, later) \<Rightarrow>
         if \<not> acquisition_bool a then Some (arc, later, False)
         else
           let begin = unat (acq_begin a);
               arc = arc\<lparr>data := uninitialized_move_n [v] begin (data arc)\<rparr>
           in Some (producer_release arc a, later, True))"

definition pop :: "'a arc \<Rightarrow> size_type list \<Rightarrow> ('a arc \<times> size_type list \<times> 'a option option) option" where
  "pop arc theirs =
    (case consumer_acquire arc theirs 1 of
       None \<Rightarrow> None
     | Some (a, later) \<Rightarrow>
         if \<not> acquisition_bool a then Some (arc, later, None)
         else
           let begin = unat (acq_begin a);
               record = data arc begin;
               arc = arc\<lparr>data := destroy begin (Suc begin) (data arc)\<rparr>
           in Some (consumer_release arc a, later, Some record))"

lemma validate_size_iff: "validate_size count = Inr () \<longleftrightarrow> unat count \<le> 2 ^ 30 - 1"
  by (simp add: validate_size_def word_less_nat_alt word_le_nat_alt flag_nums not_less)

lemma validate_size_overflow: "validate_size count = Inl overflow_error \<longleftrightarrow> unat count > 2 ^ 30 - 1"
  by (auto simp add: validate_size_def word_less_nat_alt flag_nums)

section \<open>The loop of \<open>move_n\<close>\<close>

declare move_n_loop.simps [simp del] pop_n_loop.simps [simp del]












section \<open>Claims about \<open>acquire\<close>\<close>





text \<open>
  C9, as amended. For an \<open>acquire\<close> call that requests between 1 and
  \<open>position_mask\<close> (\<open>2^30 - 1\<close>) slots, from an own position whose value field is below
  the capacity and with loaded peer positions whose value fields do not exceed it: a
  result other than the empty acquisition (\<open>Closed\<close>) satisfies
  \<open>begin < end \<le> capacity\<close>, and the conversion to \<open>bool\<close> (\<open>end != 0\<close>) is true
  exactly for those results.
\<close>

theorem acquire_range_in_bounds:
  assumes "acquire arc myPos theirs waitMask slots = Some (a, later)"
    and "slots \<noteq> 0" and "slots \<le> position_mask"
    and "pos_value myPos < unat (capacity arc)"
    and "\<forall>t\<in>set theirs. pos_value t \<le> unat (capacity arc)"
  shows "(a \<noteq> empty_acquisition \<longrightarrow> acq_begin a < acq_end a \<and> acq_end a \<le> capacity arc)
       \<and> (acquisition_bool a \<longleftrightarrow> a \<noteq> empty_acquisition)"
proof -
  from acquire_Some[OF assms(1)] obtain waited theirPos where
    w: "theirs = waited @ theirPos # later" "\<forall>t\<in>set waited. myPos XOR t = waitMask"
       "acquire arc myPos [theirPos] waitMask slots = Some (a, [])" by blast
  have tv: "pos_value theirPos \<le> unat (capacity arc)" using assms(5) w(1) by simp
  have r: "acq_begin a < acq_end a \<and> acq_end a \<le> capacity arc" if ne: "a \<noteq> empty_acquisition"
  proof -
    have nc: "\<not> (pos_dropped theirPos \<and> (waitMask \<noteq> 0 \<or> myPos XOR theirPos = drop_flag))"
      using acquire_closed[OF w(3)] ne by blast
    note f = acquire_open[OF w(3) nc]
    let ?b = "myPos AND position_mask" 
    let ?t = "theirPos AND position_mask"
    have ub: "unat ?b < 2 ^ 30" using pos_value_less[of myPos] by (simp add: pos_value_def)
    have us: "unat slots < 2 ^ 30" using assms(3) by (rule le_position_mask)
    have s0: "0 < unat slots" using assms(2) by (simp add: unat_gt_0)
    have sum: "unat (?b + slots) = unat ?b + unat slots"
      using ub us by (simp add: unat_add_lem[THEN iffD1])
    have "unat (acq_end a) = min (if unat ?t \<le> unat ?b then unat (capacity arc) else unat ?t) (unat ?b + unat slots)"
      using f(2) sum by (simp add: min_def word_le_nat_alt split: if_splits)
    with assms(4) tv s0 f(1) show ?thesis
      by (auto simp add: word_less_nat_alt word_le_nat_alt pos_value_def min_def split: if_splits)
  qed
  have "acquisition_bool a \<longleftrightarrow> a \<noteq> empty_acquisition"
  proof
    assume "acquisition_bool a" then show "a \<noteq> empty_acquisition"
      by (auto simp add: acquisition_bool_def empty_acquisition_def)
  next
    assume "a \<noteq> empty_acquisition"
    from r[OF this] have "acq_end a \<noteq> 0" by (auto simp add: word_less_nat_alt)
    then show "acquisition_bool a" by (simp add: acquisition_bool_def)
  qed
  with r show ?thesis by blast
qed

theorem acquire_range_in_bounds_witness:
  "acquire (arc_new 8 :: nat arc) 6 [6, revolution_flag OR 2] 0 4
     = Some (\<lparr>acq_begin = 6, acq_end = 8, acq_next = revolution_flag\<rparr>, [])
   \<and> (6 :: size_type) < 8 \<and> (8 :: size_type) \<le> capacity (arc_new 8 :: nat arc)
   \<and> acquisition_bool \<lparr>acq_begin = 6, acq_end = 8, acq_next = revolution_flag\<rparr>"
proof -
  let ?a = "\<lparr>acq_begin = 6, acq_end = 8, acq_next = revolution_flag\<rparr>"
  have h1: "acquire (arc_new 8 :: nat arc) 6 [6, revolution_flag OR 2] 0 4 = Some (?a, [])"
    by (simp add: arc_new_def flag_nums Let_def)
  have h2: "(4 :: size_type) \<noteq> 0" by simp
  have h3: "(4 :: size_type) \<le> position_mask" by (simp add: flag_nums)
  have h4: "pos_value 6 < unat (capacity (arc_new 8 :: nat arc))"
    by (simp add: pos_value_def arc_new_def flag_nums)
  have h5: "\<forall>t\<in>set [6, revolution_flag OR 2]. pos_value t \<le> unat (capacity (arc_new 8 :: nat arc))"
    by (simp add: pos_value_def arc_new_def flag_nums)
  have h6: "?a \<noteq> empty_acquisition" by (simp add: empty_acquisition_def)
  from acquire_range_in_bounds[OF h1 h2 h3 h4 h5] h6
  have "acq_begin ?a < acq_end ?a \<and> acq_end ?a \<le> capacity (arc_new 8 :: nat arc) \<and> acquisition_bool ?a"
    by blast
  with h1 show ?thesis by simp
qed

text \<open>
  The claim C9 as stated, for every request of at least one slot, fails where
  \<open>begin + slots\<close> wraps around 32 bits: a consumer at position 1 that requests
  \<open>2^32 - 1\<close> slots while the producer stands at 5 (no drop flag anywhere) gets
  \<open>begin = 1\<close>, \<open>end = 0\<close>, an acquisition that is not \<open>Closed\<close>, has
  \<open>begin > end\<close> and converts to \<open>false\<close>.
\<close>

theorem acquire_overflow_counterexample:
  "acquire (arc_new 8 :: nat arc) 1 [5] 0 (- 1)
     = Some (\<lparr>acq_begin = 1, acq_end = 0, acq_next = 0\<rparr>, [])
   \<and> (1 :: size_type) \<le> - 1 \<and> \<not> pos_dropped 5 \<and> \<not> pos_dropped 1
   \<and> \<not> acq_begin \<lparr>acq_begin = 1, acq_end = 0, acq_next = 0\<rparr>
         < acq_end \<lparr>acq_begin = 1, acq_end = 0, acq_next = 0\<rparr>
   \<and> \<not> acquisition_bool \<lparr>acq_begin = 1, acq_end = 0, acq_next = 0\<rparr>"
  by (simp add: arc_new_def flag_nums Let_def pos_dropped_def acquisition_bool_def)

section \<open>Claims about validation and the handles\<close>

text \<open>
  C10. A batch count above \<open>2^30 - 1\<close> makes \<open>move_n\<close> and \<open>pop_n\<close> raise the
  overflow error at once: the \<open>arc\<close> is returned as it was and no load of the peer
  position is consumed. A count at or below the bound passes the validation and the
  operation is its acquire and release loop.
\<close>

theorem batch_count_validated:
  "(2 ^ 30 - 1 < unat count \<longrightarrow>
      move_n arc theirs src count = Some (arc, theirs, Inl overflow_error)
      \<and> pop_n arc theirs out count = Some (arc, theirs, Inl overflow_error))
   \<and> (unat count \<le> 2 ^ 30 - 1 \<longrightarrow>
      move_n arc theirs src count
        = map_option (\<lambda>(arc, later, src, ok). (arc, later, Inr (src, ok)))
            (move_n_loop arc theirs src count)
      \<and> pop_n arc theirs out count
        = map_option (\<lambda>(arc, later, out, ok). (arc, later, Inr (out, ok)))
            (pop_n_loop arc theirs out count))"
proof (cases "2 ^ 30 - 1 < unat count")
  case True
  then have "validate_size count = Inl overflow_error" by (simp add: validate_size_overflow)
  with True show ?thesis by (simp add: move_n_def pop_n_def)
next
  case False
  then have "validate_size count = Inr ()" by (simp add: validate_size_iff)
  with False show ?thesis by (simp add: move_n_def pop_n_def)
qed

theorem batch_count_validated_witness:
  "move_n (arc_new 4 :: nat arc) [] [1, 2, 3] (2 ^ 30) = Some (arc_new 4, [], Inl overflow_error)
   \<and> pop_n (arc_new 4 :: nat arc) [] [] (2 ^ 30) = Some (arc_new 4, [], Inl overflow_error)
   \<and> move_n (arc_new 4 :: nat arc) [0] [1, 2, 3] 3
       = map_option (\<lambda>(arc, later, src, ok). (arc, later, Inr (src, ok)))
           (move_n_loop (arc_new 4) [0] [1, 2, 3] 3)"
proof -
  have h1: "2 ^ 30 - 1 < unat (2 ^ 30 :: size_t)" by simp
  have h2: "unat (3 :: size_t) \<le> 2 ^ 30 - 1" by simp
  from batch_count_validated[of "2 ^ 30" "arc_new 4 :: nat arc" "[]" "[1, 2, 3]" "[]"] h1
    batch_count_validated[of 3 "arc_new 4 :: nat arc" "[0]" "[1, 2, 3]" "[]"] h2
  show ?thesis by blast
qed

text \<open>
  C5. \<open>channel\<close> rejects capacity 0 with \<open>invalid_argument\<close> and accepts every other
  capacity: it allocates one \<open>arc\<close> and hands its address to one sender and one
  receiver. It never calls \<open>validate_size\<close>, so no capacity raises the overflow error.
\<close>

lemma channel_checks_zero_only:
  "channel h 0 = Inl invalid_argument"
  "c \<noteq> 0 \<Longrightarrow> channel h c
     = Inr (\<lparr>sender_arc = Some (length h)\<rparr>, \<lparr>receiver_arc = Some (length h)\<rparr>,
            h @ [Some (arc_new c)])"
  by (simp_all add: channel_def Let_def)

theorem channel_accepts_capacity_above_mask:
  "validate_size (ucast (position_mask + 1)) = Inl overflow_error
   \<and> channel ([] :: nat heap) (position_mask + 1)
     = Inr (\<lparr>sender_arc = Some 0\<rparr>, \<lparr>receiver_arc = Some 0\<rparr>, [Some (arc_new (position_mask + 1))])"
  by (simp add: channel_def validate_size_def flag_nums Let_def)

text \<open>
  What the missing check lets through: with capacity \<open>2^30 + 1\<close> the slot offset \<open>2^30\<close>
  collides with the revolution flag. A producer that has filled the slots below
  \<open>2^30 - 1\<close> and acquires one more gets \<open>end = 2^30\<close>, which is not the capacity, and
  \<open>next = end | revolution\<close> decodes to offset 0 with the revolution flipped; a consumer
  standing at \<open>2^30 - 1\<close> is then handed the range up to the capacity, whose last slot
  \<open>2^30\<close> was never constructed.
\<close>

lemma oversized_capacity_breaks_ring:
  "acquire (arc_new (position_mask + 2) :: nat arc) 0 [0] revolution_flag position_mask
     = Some (\<lparr>acq_begin = 0, acq_end = position_mask, acq_next = position_mask\<rparr>, [])"
  "acquire (arc_new (position_mask + 2) :: nat arc) position_mask [0] revolution_flag 1
     = Some (\<lparr>acq_begin = position_mask, acq_end = position_mask + 1,
              acq_next = revolution_flag\<rparr>, [])"
  "acquire (arc_new (position_mask + 2) :: nat arc) position_mask [revolution_flag] 0 2
     = Some (\<lparr>acq_begin = position_mask, acq_end = position_mask + 2,
              acq_next = revolution_flag\<rparr>, [])"
  by (simp_all add: arc_new_def flag_nums Let_def)

text \<open>
  C8. Both move assignments end without a \<open>return\<close> statement: they drop the channel
  held so far and take over the other handle's pointer, and produce no reference to
  the handle assigned to.
\<close>

theorem move_assign_returns_no_reference:
  "sender_move_assign ([Some (arc_new 4)] :: nat heap) \<lparr>sender_arc = None\<rparr> \<lparr>sender_arc = Some 0\<rparr>
     = ([Some (arc_new 4)], \<lparr>sender_arc = Some 0\<rparr>, \<lparr>sender_arc = None\<rparr>, None)
   \<and> receiver_move_assign ([Some (arc_new 4)] :: nat heap) \<lparr>receiver_arc = None\<rparr> \<lparr>receiver_arc = Some 0\<rparr>
     = ([Some (arc_new 4)], \<lparr>receiver_arc = Some 0\<rparr>, \<lparr>receiver_arc = None\<rparr>, None)"
  by (simp add: sender_move_assign_def receiver_move_assign_def handle_drop_def Let_def)

section \<open>Claims about the batch send\<close>




section \<open>Claims about the teardown\<close>

text \<open>
  For the proof about the interleavings: the segments \<open>~arc\<close> destroys, read off the
  fields of the two positions, and the invariant of two threads inside \<open>drop\<close>,
  started on \<open>arc\<close>.
\<close>

definition drop_segments :: "'a arc \<Rightarrow> (nat \<times> nat) list" where
  "drop_segments arc =
    (if pos_value (consumer arc) < pos_value (producer arc)
     then [(pos_value (consumer arc), pos_value (producer arc))]
     else if pos_rev (producer arc) \<noteq> pos_rev (consumer arc)
     then [(0, pos_value (producer arc)), (pos_value (consumer arc), unat (capacity arc))]
     else [])"

definition drop_inv :: "'a arc \<Rightarrow> 'a dropping \<Rightarrow> bool" where
  "drop_inv arc s \<longleftrightarrow>
     pc s Producer \<le> 4 \<and> pc s Consumer \<le> 4
   \<and> (1 \<le> pc s Producer \<longrightarrow> myPos_of s Producer = producer arc)
   \<and> (1 \<le> pc s Consumer \<longrightarrow> myPos_of s Consumer = consumer arc)
   \<and> producer (the_arc s) = (if 2 \<le> pc s Producer then producer arc OR drop_flag else producer arc)
   \<and> consumer (the_arc s) = (if 2 \<le> pc s Consumer then consumer arc OR drop_flag else consumer arc)
   \<and> capacity (the_arc s) = capacity arc
   \<and> eitherSideDropped (the_arc s) = (3 \<le> pc s Producer \<or> 3 \<le> pc s Consumer)
   \<and> (exchanged s Producer \<longrightarrow> 3 \<le> pc s Producer \<and> 3 \<le> pc s Consumer \<and> \<not> exchanged s Consumer)
   \<and> (exchanged s Consumer \<longrightarrow> 3 \<le> pc s Producer \<and> 3 \<le> pc s Consumer \<and> \<not> exchanged s Producer)
   \<and> (3 \<le> pc s Producer \<and> 3 \<le> pc s Consumer \<longrightarrow> exchanged s Producer \<or> exchanged s Consumer)
   \<and> destroyed s =
        (if pc s Producer = 4 \<and> exchanged s Producer then map (Pair Producer) (drop_segments arc)
         else if pc s Consumer = 4 \<and> exchanged s Consumer then map (Pair Consumer) (drop_segments arc)
         else [])
   \<and> freed s =
        (if pc s Producer = 4 \<and> exchanged s Producer then [Producer]
         else if pc s Consumer = 4 \<and> exchanged s Consumer then [Consumer]
         else [])
   \<and> data (the_arc s) =
        (if (pc s Producer = 4 \<and> exchanged s Producer) \<or> (pc s Consumer = 4 \<and> exchanged s Consumer)
         then fold (\<lambda>(b, e). destroy b e) (drop_segments arc) (data arc)
         else data arc)"

lemma different_revolution_iff:
  "(((beg XOR end) AND revolution_flag) \<noteq> 0) = (pos_rev beg \<noteq> pos_rev end)"
  by (auto simp add: pos_rev_bit w32_bit_eq bit_and_iff bit_xor_iff flag_bits)

lemma arc_destructor_segments:
  assumes "pos_value (producer a) = pos_value (producer arc)"
    and "pos_value (consumer a) = pos_value (consumer arc)"
    and "pos_rev (producer a) = pos_rev (producer arc)"
    and "pos_rev (consumer a) = pos_rev (consumer arc)"
    and "capacity a = capacity arc"
  shows "arc_destructor a = drop_segments arc"
  using assms
  by (simp add: arc_destructor_def drop_segments_def Let_def different_revolution_iff
      word_less_nat_alt pos_value_word) 

lemma arc_destructor_dropped:
  assumes "producer a = producer arc OR drop_flag" "consumer a = consumer arc OR drop_flag"
    "capacity a = capacity arc"
  shows "arc_destructor a = drop_segments arc"
  using assms by (intro arc_destructor_segments) (simp_all add: drop_store)

lemma drop_inv_start: "\<not> eitherSideDropped arc \<Longrightarrow> drop_inv arc (dropping_start arc)"
  by (simp add: drop_inv_def dropping_start_def)

lemma drop_inv_step_producer:
  assumes "drop_inv arc s" shows "drop_inv arc (drop_step Producer s)"
proof -
  from assms have le: "pc s Producer \<le> 4" by (simp add: drop_inv_def)
  then consider "pc s Producer = 0" | "pc s Producer = 1" | "pc s Producer = 2"
    | "pc s Producer = 3" | "pc s Producer = 4" by linarith
  then show ?thesis
  proof cases
    case 1 with assms show ?thesis by (simp add: drop_inv_def drop_step_def)
  next
    case 2 with assms show ?thesis by (simp add: drop_inv_def drop_step_def)
  next
    case 3 with assms show ?thesis by (auto simp add: drop_inv_def drop_step_def)
  next
    case 4
    show ?thesis
    proof (cases "exchanged s Producer")
      case True
      with assms 4 have "arc_destructor (the_arc s) = drop_segments arc"
        by (intro arc_destructor_dropped) (simp_all add: drop_inv_def)
      with assms 4 True show ?thesis by (simp add: drop_inv_def drop_step_def)
    next
      case False
      with assms 4 show ?thesis by (auto simp add: drop_inv_def drop_step_def)
    qed
  next
    case 5 with assms show ?thesis by (simp add: drop_inv_def drop_step_def)
  qed
qed

lemma drop_inv_step_consumer:
  assumes "drop_inv arc s" shows "drop_inv arc (drop_step Consumer s)"
proof -
  from assms have le: "pc s Consumer \<le> 4" by (simp add: drop_inv_def)
  then consider "pc s Consumer = 0" | "pc s Consumer = 1" | "pc s Consumer = 2"
    | "pc s Consumer = 3" | "pc s Consumer = 4" by linarith
  then show ?thesis
  proof cases
    case 1 with assms show ?thesis by (simp add: drop_inv_def drop_step_def)
  next
    case 2 with assms show ?thesis by (simp add: drop_inv_def drop_step_def)
  next
    case 3 with assms show ?thesis by (auto simp add: drop_inv_def drop_step_def)
  next
    case 4
    show ?thesis
    proof (cases "exchanged s Consumer")
      case True
      with assms 4 have "arc_destructor (the_arc s) = drop_segments arc"
        by (intro arc_destructor_dropped) (simp_all add: drop_inv_def)
      with assms 4 True show ?thesis by (simp add: drop_inv_def drop_step_def)
    next
      case False
      with assms 4 show ?thesis by (auto simp add: drop_inv_def drop_step_def)
    qed
  next
    case 5 with assms show ?thesis by (simp add: drop_inv_def drop_step_def)
  qed
qed


lemma drop_inv_step: "drop_inv arc s \<Longrightarrow> drop_inv arc (drop_step t s)"
  by (cases t) (simp_all add: drop_inv_step_producer drop_inv_step_consumer)

lemma drop_inv_run: "drop_inv arc s \<Longrightarrow> drop_inv arc (run_drops schedule s)"
  unfolding run_drops_def
  by (induction schedule arbitrary: s) (simp_all add: drop_inv_step)

text \<open>
  C3. Start one \<open>drop_producer\<close> and one \<open>drop_consumer\<close> call on a shared state on
  which no side has dropped yet, and let them interleave in any order, step by step.
  When both calls have returned, exactly one of them (the second dropper) has seen
  \<open>_eitherSideDropped\<close> already set; it alone has called \<open>std::destroy\<close> and freed the
  storage, once; and the ranges it destroyed are the single segment from the consumer
  value to the producer value when the producer value is the larger one, otherwise the
  two segments \<open>[0, producer value)\<close> and \<open>[consumer value, capacity)\<close> when the
  revolution flags differ, and otherwise none. The first dropper destroyed nothing.
\<close>

theorem second_dropper_tears_down:
  assumes "\<not> eitherSideDropped arc"
    and "pc (run_drops schedule (dropping_start arc)) Producer = 4"
    and "pc (run_drops schedule (dropping_start arc)) Consumer = 4"
  shows "\<exists>first second. first \<noteq> second
      \<and> \<not> exchanged (run_drops schedule (dropping_start arc)) first
      \<and> exchanged (run_drops schedule (dropping_start arc)) second
      \<and> freed (run_drops schedule (dropping_start arc)) = [second]
      \<and> destroyed (run_drops schedule (dropping_start arc)) =
          map (Pair second)
            (if pos_value (consumer arc) < pos_value (producer arc)
             then [(pos_value (consumer arc), pos_value (producer arc))]
             else if pos_rev (producer arc) \<noteq> pos_rev (consumer arc)
             then [(0, pos_value (producer arc)), (pos_value (consumer arc), unat (capacity arc))]
             else [])
      \<and> data (the_arc (run_drops schedule (dropping_start arc))) =
          fold (\<lambda>(b, e). destroy b e)
            (if pos_value (consumer arc) < pos_value (producer arc)
             then [(pos_value (consumer arc), pos_value (producer arc))]
             else if pos_rev (producer arc) \<noteq> pos_rev (consumer arc)
             then [(0, pos_value (producer arc)), (pos_value (consumer arc), unat (capacity arc))]
             else [])
            (data arc)"
proof -
  let ?s = "run_drops schedule (dropping_start arc)"
  have inv: "drop_inv arc ?s" using assms(1) by (intro drop_inv_run drop_inv_start)
  show ?thesis
  proof (cases "exchanged ?s Producer")
    case True
    with inv assms(2,3) have
      "Consumer \<noteq> Producer \<and> \<not> exchanged ?s Consumer \<and> exchanged ?s Producer
       \<and> freed ?s = [Producer] \<and> destroyed ?s = map (Pair Producer) (drop_segments arc)
       \<and> data (the_arc ?s) = fold (\<lambda>(b, e). destroy b e) (drop_segments arc) (data arc)"
      by (simp add: drop_inv_def)
    then show ?thesis unfolding drop_segments_def by blast
  next
    case False
    with inv assms(2,3) have
      "Producer \<noteq> Consumer \<and> \<not> exchanged ?s Producer \<and> exchanged ?s Consumer
       \<and> freed ?s = [Consumer] \<and> destroyed ?s = map (Pair Consumer) (drop_segments arc)
       \<and> data (the_arc ?s) = fold (\<lambda>(b, e). destroy b e) (drop_segments arc) (data arc)"
      by (simp add: drop_inv_def)
    then show ?thesis unfolding drop_segments_def by blast
  qed
qed

theorem second_dropper_tears_down_witness:
  "pc (run_drops [Producer, Consumer, Consumer, Producer, Consumer, Producer, Producer, Consumer]
        (dropping_start ((arc_new 4 :: nat arc)\<lparr>producer := revolution_flag OR 1, consumer := 3\<rparr>)))
      Producer = 4
   \<and> pc (run_drops [Producer, Consumer, Consumer, Producer, Consumer, Producer, Producer, Consumer]
        (dropping_start ((arc_new 4 :: nat arc)\<lparr>producer := revolution_flag OR 1, consumer := 3\<rparr>)))
      Consumer = 4
   \<and> \<not> exchanged (run_drops [Producer, Consumer, Consumer, Producer, Consumer, Producer, Producer, Consumer]
        (dropping_start ((arc_new 4 :: nat arc)\<lparr>producer := revolution_flag OR 1, consumer := 3\<rparr>)))
      Consumer
   \<and> freed (run_drops [Producer, Consumer, Consumer, Producer, Consumer, Producer, Producer, Consumer]
        (dropping_start ((arc_new 4 :: nat arc)\<lparr>producer := revolution_flag OR 1, consumer := 3\<rparr>)))
      = [Producer]
   \<and> destroyed (run_drops [Producer, Consumer, Consumer, Producer, Consumer, Producer, Producer, Consumer]
        (dropping_start ((arc_new 4 :: nat arc)\<lparr>producer := revolution_flag OR 1, consumer := 3\<rparr>)))
      = [(Producer, 0, 1), (Producer, 3, 4)]"
proof -
  let ?A = "(arc_new 4 :: nat arc)\<lparr>producer := revolution_flag OR 1, consumer := 3\<rparr>"
  let ?S = "run_drops [Producer, Consumer, Consumer, Producer, Consumer, Producer, Producer, Consumer]
        (dropping_start ?A)"
  have h1: "\<not> eitherSideDropped ?A" by (simp add: arc_new_def)
  have h2: "pc ?S Producer = 4" by code_simp
  have h3: "pc ?S Consumer = 4" by code_simp
  have h4: "\<not> exchanged ?S Consumer" by code_simp
  have v: "pos_value (consumer ?A) = 3" "pos_value (producer ?A) = 1"
    "pos_rev (producer ?A)" "\<not> pos_rev (consumer ?A)" "unat (capacity ?A) = 4"
    by (simp_all add: arc_new_def pos_value_def pos_rev_def flag_nums)
  from second_dropper_tears_down[OF h1 h2 h3] obtain first second where
    r: "exchanged ?S second" "freed ?S = [second]"
       "destroyed ?S = map (Pair second)
            (if pos_value (consumer ?A) < pos_value (producer ?A)
             then [(pos_value (consumer ?A), pos_value (producer ?A))]
             else if pos_rev (producer ?A) \<noteq> pos_rev (consumer ?A)
             then [(0, pos_value (producer ?A)), (pos_value (consumer ?A), unat (capacity ?A))]
             else [])"
    by blast
  from r(1) h4 have "second = Producer" by (cases second) auto
  with r(2,3) v h2 h3 h4 show ?thesis by simp
qed


section \<open>Producer and consumer running against one \<open>arc\<close>\<close>












section \<open>The ring invariant\<close>









definition pending_ok :: "nat \<Rightarrow> size_type \<Rightarrow> nat \<Rightarrow> acquisition \<Rightarrow> bool" where
  "pending_ok C myPos limit a \<longleftrightarrow>
     unat (acq_begin a) = pos_value myPos \<and> pos_value myPos < unat (acq_end a)
   \<and> unat (acq_end a) \<le> limit
   \<and> unat (acq_end a - acq_begin a) = unat (acq_end a) - pos_value myPos
   \<and> pos_value (acq_next a) = unat (acq_end a) mod C
   \<and> pos_rev (acq_next a) = (if unat (acq_end a) = C then \<not> pos_rev myPos else pos_rev myPos)
   \<and> \<not> pos_dropped (acq_next a)"














lemma pending_ok_fields:
  "pending_ok C p l a \<Longrightarrow> pos_value p' = pos_value p \<Longrightarrow> pos_rev p' = pos_rev p \<Longrightarrow>
   pending_ok C p' l a"
  by (simp add: pending_ok_def)














section \<open>Claims about the ring of unread elements\<close>










end
